theory Spec2Isabelle
  imports Main
begin

section \<open>JavaScript values, errors and the external collaborators\<close>

text \<open>
  The render context of \<^verbatim>\<open>core/render/result.ts\<close> handles values of type \<^verbatim>\<open>any\<close>: slot
  contents, call arguments and render results. The model keeps the shapes the code
  distinguishes: \<^verbatim>\<open>undefined\<close>, \<^verbatim>\<open>null\<close>, booleans, (integer) numbers, strings, functions,
  objects whose \<^verbatim>\<open>expressions\<close> property is an array (the result of a compiled template),
  and every other object. A function value is an identifier; what a call of it yields once
  awaited is given by the environment.
\<close>

type_synonym fn = nat

datatype val =
    VUndefined
  | VNull
  | VBool bool
  | VNum int
  | VStr string
  | VFun fn
  | VTemplate "val list"
  | VObject

text \<open>
  A \<^verbatim>\<open>throw new Error(msg)\<close> of the source is \<open>Error msg\<close>; calling a value that is not a
  function is a \<open>TypeError\<close>. External code may fail with either.
\<close>

datatype error = Error string | TypeError

text \<open>JavaScript's \<^verbatim>\<open>Boolean(v)\<close>, as used by \<^verbatim>\<open>if (v)\<close> and \<^verbatim>\<open>!v\<close>.\<close>

fun truthy :: "val \<Rightarrow> bool" where
  "truthy VUndefined = False"
| "truthy VNull = False"
| "truthy (VBool b) = b"
| "truthy (VNum n) = (n \<noteq> 0)"
| "truthy (VStr s) = (s \<noteq> [])"
| "truthy (VFun k) = True"
| "truthy (VTemplate es) = True"
| "truthy VObject = True"

text \<open>
  What \<^verbatim>\<open>result.ts\<close> imports and calls but does not define: the awaited outcome of calling a
  function value (\<open>call_fn\<close>), \<^verbatim>\<open>renderSlot\<close> of \<^verbatim>\<open>runtime/server/index.js\<close> (awaited), the
  built-in \<^verbatim>\<open>String\<close> conversion, \<^verbatim>\<open>isCSSRequest\<close>, \<^verbatim>\<open>isScriptRequest\<close> and
  \<^verbatim>\<open>bold\<close> of \<^verbatim>\<open>kleur/colors\<close>. They are parameters of the model.
\<close>

record 'r env =
  call_fn :: "fn \<Rightarrow> val list \<Rightarrow> error + val"
  renderSlot :: "'r \<Rightarrow> val \<Rightarrow> error + val"
  String_of :: "val \<Rightarrow> string"
  isCSSRequest :: "string \<Rightarrow> bool"
  isScriptRequest :: "string \<Rightarrow> bool"
  bold :: "string \<Rightarrow> string"

text \<open>
  The observable effects of a render: a function value was called with arguments, or a
  slot value was handed to \<^verbatim>\<open>renderSlot\<close>, which is what invokes slot content.
\<close>

datatype event = Invoked fn "val list" | RenderSlot val

text \<open>Calling a value: only a function can be called.\<close>

definition js_call :: "'r env \<Rightarrow> val \<Rightarrow> val list \<Rightarrow> (error + val) \<times> event list" where
  "js_call env f args =
     (case f of
        VFun k \<Rightarrow> (call_fn env k args, [Invoked k args])
      | _ \<Rightarrow> (Inl TypeError, []))"

section \<open>Slots\<close>

text \<open>
  The slot map is a \<^verbatim>\<open>Record<string, any>\<close>: its own enumerable properties in the order
  of \<^verbatim>\<open>Object.keys\<close> (each key once), and what a lookup of any other name finds along its
  prototype chain (\<open>VUndefined\<close> when nothing).
\<close>

record slot_record =
  own :: "(string \<times> val) list"
  inherited :: "string \<Rightarrow> val"

definition Object_keys :: "slot_record \<Rightarrow> string list" where
  "Object_keys r = map fst (own r)"

definition get_prop :: "slot_record \<Rightarrow> string \<Rightarrow> val" where
  "get_prop r name = (case map_of (own r) name of Some v \<Rightarrow> v | None \<Rightarrow> inherited r name)"

text \<open>
  A \<^verbatim>\<open>Slots\<close> object: the private fields \<^verbatim>\<open>#cache\<close>, \<^verbatim>\<open>#result\<close>, \<^verbatim>\<open>#slots\<close>, and the
  getter properties its constructor has defined on it (\<open>getters\<close>).
\<close>

record 'r Slots =
  cache :: "string \<rightharpoonup> val"
  result :: 'r
  slots :: "slot_record option"
  getters :: "string list"

text \<open>
  The names that a lookup on a \<^verbatim>\<open>Slots\<close> instance finds before any slot is defined: the
  members of the class, and the properties of \<^verbatim>\<open>Object.prototype\<close>. Private fields are
  not reachable by a string key.
\<close>

definition Slots_prototype :: "string list" where
  "Slots_prototype = [''constructor'', ''has'', ''render'']"

definition Object_prototype :: "string list" where
  "Object_prototype =
     [''constructor'', ''__defineGetter__'', ''__defineSetter__'', ''hasOwnProperty'',
      ''__lookupGetter__'', ''__lookupSetter__'', ''isPrototypeOf'',
      ''propertyIsEnumerable'', ''toString'', ''valueOf'', ''__proto__'',
      ''toLocaleString'']"

text \<open>\<^verbatim>\<open>(this as any)[key] !== undefined\<close>: every getter defined so far returns \<^verbatim>\<open>true\<close>.\<close>

definition this_defined :: "string list \<Rightarrow> string \<Rightarrow> bool" where
  "this_defined ps key \<longleftrightarrow>
     key \<in> set ps \<or> key \<in> set Slots_prototype \<or> key \<in> set Object_prototype"

definition reserved_message :: "string \<Rightarrow> string" where
  "reserved_message key =
     ''Unable to create a slot named \"'' @ key @ ''\". \"'' @ key @
     ''\" is a reserved slot name!\<newline>Please update the name of this slot.''"

text \<open>The constructor's loop over \<^verbatim>\<open>Object.keys(slots)\<close>.\<close>

fun define_slots :: "string list \<Rightarrow> string list \<Rightarrow> error + string list" where
  "define_slots ps [] = Inr ps"
| "define_slots ps (key # keys) =
     (if this_defined ps key then Inl (Error (reserved_message key))
      else define_slots (ps @ [key]) keys)"

definition Slots_new :: "'r \<Rightarrow> slot_record option \<Rightarrow> error + 'r Slots" where
  "Slots_new res sl =
     (case sl of
        None \<Rightarrow> Inr \<lparr>cache = Map.empty, result = res, slots = None, getters = []\<rparr>
      | Some r \<Rightarrow>
          (case define_slots [] (Object_keys r) of
             Inl e \<Rightarrow> Inl e
           | Inr ps \<Rightarrow> Inr \<lparr>cache = Map.empty, result = res, slots = Some r, getters = ps\<rparr>))"

definition has :: "'r Slots \<Rightarrow> string \<Rightarrow> bool" where
  "has s name = (case slots s of None \<Rightarrow> False | Some r \<Rightarrow> truthy (get_prop r name))"

text \<open>
  \<^verbatim>\<open>getFunctionExpression\<close>: the single element of \<^verbatim>\<open>slot.expressions\<close>, or \<^verbatim>\<open>undefined\<close>.
\<close>

definition getFunctionExpression :: "val \<Rightarrow> val" where
  "getFunctionExpression slot =
     (if \<not> truthy slot then VUndefined
      else case slot of
             VTemplate es \<Rightarrow> (case es of [e] \<Rightarrow> e | _ \<Rightarrow> VUndefined)
           | _ \<Rightarrow> VUndefined)"

text \<open>\<^verbatim>\<open>res != null ? String(res) : res\<close>\<close>

definition coerce :: "'r env \<Rightarrow> val \<Rightarrow> val" where
  "coerce env res =
     (if res \<noteq> VNull \<and> res \<noteq> VUndefined then VStr (String_of env res) else res)"

text \<open>\<^verbatim>\<open>Map.prototype.get\<close> on the cache: \<^verbatim>\<open>undefined\<close> for a missing key.\<close>

definition cache_get :: "(string \<rightharpoonup> val) \<Rightarrow> string \<Rightarrow> val" where
  "cache_get c name = (case c name of Some v \<Rightarrow> v | None \<Rightarrow> VUndefined)"

text \<open>
  The tail of \<^verbatim>\<open>render\<close>: the slot value goes to \<^verbatim>\<open>renderSlot\<close>, the result is coerced
  and, on a cacheable call, stored. \<open>evs\<close> are the events so far.
\<close>

definition render_content ::
  "'r env \<Rightarrow> 'r Slots \<Rightarrow> slot_record \<Rightarrow> string \<Rightarrow> bool \<Rightarrow> event list \<Rightarrow>
   (error + val) \<times> 'r Slots \<times> event list" where
  "render_content env s r name cacheable evs =
     (case renderSlot env (result s) (get_prop r name) of
        Inl e \<Rightarrow> (Inl e, s, evs @ [RenderSlot (get_prop r name)])
      | Inr res \<Rightarrow>
          (Inr (coerce env res),
           (if cacheable then s\<lparr>cache := (cache s)(name \<mapsto> coerce env res)\<rparr> else s),
           evs @ [RenderSlot (get_prop r name)]))"

text \<open>
  \<^verbatim>\<open>Slots.render(name, args)\<close>: the outcome (an error thrown, or the value returned), the
  object afterwards, and the events of the call in order.
\<close>

definition render ::
  "'r env \<Rightarrow> 'r Slots \<Rightarrow> string \<Rightarrow> val list \<Rightarrow> (error + val) \<times> 'r Slots \<times> event list" where
  "render env s name args =
     (let cacheable = (length args = 0) in
      case slots s of
        None \<Rightarrow> (Inr VUndefined, s, [])
      | Some r \<Rightarrow>
          if cacheable \<and> cache s name \<noteq> None then (Inr (cache_get (cache s) name), s, [])
          else if \<not> has s name then (Inr VUndefined, s, [])
          else if \<not> cacheable then
            (case js_call env (get_prop r name) [] of
               (Inl e, evs) \<Rightarrow> (Inl e, s, evs)
             | (Inr component, evs) \<Rightarrow>
                 (let expression = getFunctionExpression component in
                  if truthy expression then
                    (case js_call env expression args of
                       (Inl e, evs') \<Rightarrow> (Inl e, s, evs @ evs')
                     | (Inr slot, evs') \<Rightarrow>
                         (case renderSlot env (result s) slot of
                            Inl e \<Rightarrow> (Inl e, s, evs @ evs' @ [RenderSlot slot])
                          | Inr res \<Rightarrow>
                              (Inr (coerce env res), s, evs @ evs' @ [RenderSlot slot])))
                  else render_content env s r name cacheable evs))
          else render_content env s r name cacheable [])"

section \<open>The render context: \<^verbatim>\<open>createResult\<close> and \<^verbatim>\<open>createAstro\<close>\<close>

text \<open>
  \<^verbatim>\<open>new Response(null, {status, headers})\<close> is kept as the data the source passes to the
  constructor: the body, the status and the header record.
\<close>

record response =
  body :: val
  status :: nat
  headers :: "(string \<times> string) list"

text \<open>\<^verbatim>\<open>onlyAvailableInSSR(name)\<close> returns a function that throws whatever it is called with.\<close>

definition onlyAvailableInSSR :: "string \<Rightarrow> 'a \<Rightarrow> error + 'b" where
  "onlyAvailableInSSR name =
     (\<lambda>_. Inl (Error (''Oops, you are trying to use '' @ name @
                      '', which is only available with SSR.'')))"

text \<open>
  \<^verbatim>\<open>CreateResultArgs\<close>. \<open>'l\<close> is \<^verbatim>\<open>LogOptions\<close>; \<^verbatim>\<open>SSRElement\<close>, route parameters, renderers
  and the markdown configuration are values. \<open>request_url\<close> is \<^verbatim>\<open>request.url\<close>; the
  fields \<open>args_renderers\<close>, \<open>args_site\<close>, \<open>args_links\<close> and \<open>args_scripts\<close> are
  \<^verbatim>\<open>renderers\<close>, \<^verbatim>\<open>site\<close>, \<^verbatim>\<open>links\<close> and \<^verbatim>\<open>scripts\<close>.
\<close>

record 'l CreateResultArgs =
  ssr :: bool
  legacyBuild :: bool
  logging :: 'l
  origin :: string
  markdownRender :: val
  params :: val
  pathname :: string
  args_renderers :: "val list"
  resolve :: "string \<Rightarrow> error + string"
  args_site :: "string option"
  args_links :: "val list option"
  args_scripts :: "val list option"
  request_url :: string

text \<open>
  The \<^verbatim>\<open>SSRResult\<close> without its method \<^verbatim>\<open>createAstro\<close>, which is the function \<open>createAstro\<close>
  below. The three sets are lists in insertion order.
\<close>

record SSRResult =
  result_styles :: "val list"
  result_scripts :: "val list"
  result_links :: "val list"
  result_resolve :: "string \<Rightarrow> error + string"
  metadata_renderers :: "val list"
  metadata_pathname :: string
  metadata_legacyBuild :: bool

text \<open>
  \<^verbatim>\<open>new URL(request.url).origin\<close> and \<^verbatim>\<open>createCanonicalURL\<close> of \<^verbatim>\<open>./util.js\<close> are not part
  of the sources; a request's URL is always a valid absolute URL.
\<close>

record url_env =
  URL_origin :: "string \<Rightarrow> string"
  createCanonicalURL :: "string \<Rightarrow> string \<Rightarrow> string"

definition canonicalURL_of :: "url_env \<Rightarrow> 'l CreateResultArgs \<Rightarrow> string" where
  "canonicalURL_of u args =
     createCanonicalURL u (''.'' @ pathname args)
       (case args_site args of Some s \<Rightarrow> s | None \<Rightarrow> URL_origin u (request_url args))"

definition createResult :: "'l CreateResultArgs \<Rightarrow> SSRResult" where
  "createResult args =
     \<lparr>result_styles = [],
      result_scripts = (case args_scripts args of Some s \<Rightarrow> s | None \<Rightarrow> []),
      result_links = (case args_links args of Some l \<Rightarrow> l | None \<Rightarrow> []),
      result_resolve = resolve args,
      metadata_renderers = args_renderers args,
      metadata_pathname = pathname args,
      metadata_legacyBuild = legacyBuild args\<rparr>"

text \<open>
  The partial global handed to \<^verbatim>\<open>createAstro\<close>; only its \<^verbatim>\<open>resolve\<close> is used. A call of
  \<^verbatim>\<open>warn(logging, type, message)\<close> is recorded with its three arguments.
\<close>

record AstroGlobalPartial =
  global_resolve :: "string \<Rightarrow> error + string"

type_synonym 'l warning = "'l \<times> string \<times> string"

text \<open>The message of the warning of \<^verbatim>\<open>Astro.resolve\<close>, as the template literals build it.\<close>

definition resolve_extra :: "'r env \<Rightarrow> string \<Rightarrow> string" where
  "resolve_extra env path =
     (if isCSSRequest env path then
        ''It looks like you are resolving styles. If you are adding a link tag, replace with this:\<newline>---\<newline>import \"''
        @ path @ ''\";\<newline>---\<newline>''
      else if isScriptRequest env path then
        ''It looks like you are resolving scripts. If you are adding a script tag, replace with this:\<newline>\<newline><script type=\"module\" src={(await import(\"''
        @ path @
        ''?url\")).default}></script>\<newline>\<newline>or consider make it a module like so:\<newline>\<newline><script>\<newline>''
        @ [CHR 0x09] @ ''import MyModule from \"'' @ path @ ''\";\<newline></script>\<newline>''
      else
        ''This can be replaced with a dynamic import like so: await import(\"'' @ path @ ''\")'')"

definition resolve_message :: "'r env \<Rightarrow> string \<Rightarrow> string" where
  "resolve_message env path =
     bold env ''Astro.resolve()'' @ '' is deprecated. We see that you are trying to resolve ''
     @ path @ ''.\<newline>'' @ resolve_extra env path"

text \<open>
  The \<^verbatim>\<open>Astro\<close> object. Its two methods are function-valued fields; \<open>Astro_resolve\<close>
  returns its outcome together with the calls of \<^verbatim>\<open>warn\<close> it made. The hidden
  \<^verbatim>\<open>__renderMarkdown\<close> property is not modelled.
\<close>

record 'l Astro =
  Astro_proto :: AstroGlobalPartial
  Astro_canonicalURL :: string
  Astro_params :: val
  Astro_props :: val
  Astro_request :: string
  Astro_redirect :: "string \<Rightarrow> error + response"
  Astro_resolve :: "string \<Rightarrow> (error + string) \<times> 'l warning list"
  Astro_slots :: "SSRResult Slots"

definition createAstro ::
  "SSRResult env \<Rightarrow> url_env \<Rightarrow> 'l CreateResultArgs \<Rightarrow> AstroGlobalPartial \<Rightarrow> val \<Rightarrow>
   slot_record option \<Rightarrow> error + 'l Astro" where
  "createAstro env u args astroGlobal props sl =
     (case Slots_new (createResult args) sl of
        Inl e \<Rightarrow> Inl e
      | Inr astroSlots \<Rightarrow>
          Inr \<lparr>Astro_proto = astroGlobal,
               Astro_canonicalURL = canonicalURL_of u args,
               Astro_params = params args,
               Astro_props = props,
               Astro_request = request_url args,
               Astro_redirect =
                 (if ssr args
                  then (\<lambda>path. Inr \<lparr>body = VNull, status = 301,
                                     headers = [(''Location'', path)]\<rparr>)
                  else onlyAvailableInSSR ''Astro.redirect''),
               Astro_resolve =
                 (\<lambda>path.
                    if \<not> legacyBuild args then
                      (Inr [], [(logging args, ''deprecation'', resolve_message env path)])
                    else (global_resolve astroGlobal path, [])),
               Astro_slots = astroSlots\<rparr>)"

section \<open>The manifest builder of \<^verbatim>\<open>vite-plugin-ssr.ts\<close>\<close>

text \<open>
  Plain JSON data: what \<^verbatim>\<open>serializeRouteData\<close> returns and what \<^verbatim>\<open>JSON.stringify\<close> writes.
  An object is the list of its properties in order. Numbers do not occur in the fields of
  the manifest that are modelled.
\<close>

datatype json =
    JNull
  | JBool bool
  | JString string
  | JArray "json list"
  | JObject "(string \<times> json) list"

text \<open>
  \<^verbatim>\<open>buildManifest\<close> copies a \<^verbatim>\<open>Map\<close> into a new object and then assigns to that object.
  To tell the copy from the original, both live in a store: a cell holds the entries of a
  \<^verbatim>\<open>Map<string, string>\<close>, or the properties of an object, in insertion order, and
  \<open>next_addr\<close> is the first address not yet allocated.
\<close>

type_synonym addr = nat

type_synonym table = "(string \<times> string) list"

record store =
  cells :: "addr \<Rightarrow> table"
  next_addr :: addr

text \<open>
  \<^verbatim>\<open>PageBuildData\<close> and \<^verbatim>\<open>BuildInternals\<close>, with the fields \<^verbatim>\<open>buildManifest\<close> reads. The sets
  \<^verbatim>\<open>css\<close> and \<^verbatim>\<open>scripts\<close> are lists in insertion order, which is the order of
  \<^verbatim>\<open>Array.from\<close>; \<open>page_scripts\<close> is \<^verbatim>\<open>pageData.scripts\<close>.
\<close>

record 'route PageBuildData =
  css :: "string list"
  hoistedScript :: "string option"
  page_scripts :: "string list"
  route :: 'route

record 'route BuildInternals =
  pageData :: "'route PageBuildData list"
  entrySpecifierToBundleMap :: addr

text \<open>
  Modelled from the spec: \<^verbatim>\<open>eachPageData\<close> of \<^verbatim>\<open>./internal.js\<close>, which is not part of the
  sources, iterates every page's build data in a stable order defined by the build
  internals; \<open>pageData\<close> holds them in that order.
\<close>

definition eachPageData :: "'route BuildInternals \<Rightarrow> 'route PageBuildData list" where
  "eachPageData internals = pageData internals"

text \<open>
  \<^verbatim>\<open>astroConfig\<close> with the two fields read here (\<^verbatim>\<open>site\<close> and \<^verbatim>\<open>markdown\<close>), and the build
  options that carry it.
\<close>

record AstroConfig =
  config_site :: "string option"
  config_markdown :: json

record StaticBuildOptions =
  astroConfig :: AstroConfig

record SerializedRouteInfo =
  route_file :: string
  links :: "string list"
  scripts :: "string list"
  routeData :: json

text \<open>
  \<open>route_file\<close> above is the field \<^verbatim>\<open>file\<close>. The fields of the serialized manifest hold
  plain data: \<open>pageMap\<close> and the members of \<open>renderers\<close> are JSON values, \<open>markdown\<close> is the
  pair in \<^verbatim>\<open>markdown: { render: [astroRemark, astroConfig.markdown] }\<close> (a function and
  the configuration as \<^verbatim>\<open>JSON.stringify\<close> writes it), and \<open>entryModules\<close> is the address of
  the object built for it.
\<close>

record SerializedSSRManifest =
  routes :: "SerializedRouteInfo list"
  site :: "string option"
  markdown :: "fn \<times> json"
  pageMap :: json
  renderers :: "json list"
  entryModules :: addr

text \<open>
  What \<^verbatim>\<open>vite-plugin-ssr.ts\<close> imports: \<^verbatim>\<open>serializeRouteData\<close>, the constant
  \<^verbatim>\<open>BEFORE_HYDRATION_SCRIPT_ID\<close> and the function \<^verbatim>\<open>astroRemark\<close>.
\<close>

record 'route build_env =
  serializeRouteData :: "'route \<Rightarrow> json"
  BEFORE_HYDRATION_SCRIPT_ID :: string
  astroRemark :: fn

text \<open>The body of the loop over the pages: the route entry pushed for one page.\<close>

definition route_info :: "'route build_env \<Rightarrow> 'route PageBuildData \<Rightarrow> SerializedRouteInfo" where
  "route_info b pd =
     (let scripts0 = page_scripts pd;
          scripts1 = (case hoistedScript pd of
                        Some h \<Rightarrow> if h \<noteq> [] then h # scripts0 else scripts0
                      | None \<Rightarrow> scripts0)
      in \<lparr>route_file = [], links = css pd, scripts = scripts1,
          routeData = serializeRouteData b (route pd)\<rparr>)"

fun push_routes ::
  "'route build_env \<Rightarrow> SerializedRouteInfo list \<Rightarrow> 'route PageBuildData list \<Rightarrow>
   SerializedRouteInfo list" where
  "push_routes b acc [] = acc"
| "push_routes b acc (pd # pds) = push_routes b (acc @ [route_info b pd]) pds"

text \<open>
  Setting a property of an object, for an ordinary property name such as a module
  specifier: an existing key keeps its place and takes the new value, a new key goes last.
\<close>

fun obj_set :: "table \<Rightarrow> string \<Rightarrow> string \<Rightarrow> table" where
  "obj_set [] k v = [(k, v)]"
| "obj_set ((k', v') # kvs) k v =
     (if k' = k then (k, v) # kvs else (k', v') # obj_set kvs k v)"

definition Map_entries :: "store \<Rightarrow> addr \<Rightarrow> table" where
  "Map_entries st a = cells st a"

text \<open>\<^verbatim>\<open>Object.fromEntries\<close> allocates a new object and sets the entries on it in order.\<close>

definition Object_fromEntries :: "table \<Rightarrow> store \<Rightarrow> addr \<times> store" where
  "Object_fromEntries es st =
     (next_addr st,
      \<lparr>cells = (cells st)(next_addr st := fold (\<lambda>(k, v) t. obj_set t k v) es []),
       next_addr = Suc (next_addr st)\<rparr>)"

definition assign_prop :: "addr \<Rightarrow> string \<Rightarrow> string \<Rightarrow> store \<Rightarrow> store" where
  "assign_prop a k v st = st\<lparr>cells := (cells st)(a := obj_set (cells st a) k v)\<rparr>"

definition no_before_hydration :: string where
  "no_before_hydration = ''data:text/javascript;charset=utf-8,//[no before-hydration script]''"

definition buildManifest ::
  "'route build_env \<Rightarrow> StaticBuildOptions \<Rightarrow> 'route BuildInternals \<Rightarrow> store \<Rightarrow>
   SerializedSSRManifest \<times> store" where
  "buildManifest b opts internals st =
     (let routes0 = push_routes b [] (eachPageData internals);
          (em, st1) = Object_fromEntries (Map_entries st (entrySpecifierToBundleMap internals)) st;
          st2 = assign_prop em (BEFORE_HYDRATION_SCRIPT_ID b) no_before_hydration st1
      in (\<lparr>routes = routes0,
           site = config_site (astroConfig opts),
           markdown = (astroRemark b, config_markdown (astroConfig opts)),
           pageMap = JNull,
           renderers = [],
           entryModules = em\<rparr>, st2))"

section \<open>\<^verbatim>\<open>JSON.stringify\<close> and \<^verbatim>\<open>JSON.parse\<close>\<close>

text \<open>
  The two built-ins that stand between the manifest and the chunk, after ECMA-262, on the
  JSON data above and strings of 8-bit characters. \<^verbatim>\<open>JSON.stringify\<close> (without indentation)
  escapes the quote, the backslash and the control characters of a string and writes
  everything else as it is.
\<close>

definition hex_digit :: "nat \<Rightarrow> char" where
  "hex_digit n = (if n < 10 then char_of (48 + n) else char_of (87 + n))"

definition escape :: "char \<Rightarrow> string" where
  "escape c =
     (if c = CHR 0x22 then [CHR 0x5C, CHR 0x22]
      else if c = CHR 0x5C then [CHR 0x5C, CHR 0x5C]
      else if c = CHR 0x08 then [CHR 0x5C, CHR ''b'']
      else if c = CHR 0x0C then [CHR 0x5C, CHR ''f'']
      else if c = CHR 0x0A then [CHR 0x5C, CHR ''n'']
      else if c = CHR 0x0D then [CHR 0x5C, CHR ''r'']
      else if c = CHR 0x09 then [CHR 0x5C, CHR ''t'']
      else if (of_char c :: nat) < 32 then
        [CHR 0x5C, CHR ''u'', CHR ''0'', CHR ''0'',
         hex_digit ((of_char c :: nat) div 16), hex_digit ((of_char c :: nat) mod 16)]
      else [c])"

definition quote :: "string \<Rightarrow> string" where
  "quote s = CHR 0x22 # concat (map escape s) @ [CHR 0x22]"

fun join_comma :: "string list \<Rightarrow> string" where
  "join_comma [] = []"
| "join_comma [x] = x"
| "join_comma (x # y # ys) = x @ CHR '','' # join_comma (y # ys)"

fun stringify :: "json \<Rightarrow> string" where
  "stringify JNull = ''null''"
| "stringify (JBool b) = (if b then ''true'' else ''false'')"
| "stringify (JString s) = quote s"
| "stringify (JArray xs) = CHR ''['' # join_comma (map stringify xs) @ '']''"
| "stringify (JObject kvs) =
     CHR ''{'' # join_comma (map (\<lambda>(k, v). quote k @ CHR '':'' # stringify v) kvs) @ ''}''"

text \<open>
  \<^verbatim>\<open>JSON.parse\<close>: white space between tokens, the escapes of the JSON grammar (a
  \<^verbatim>\<open>\uXXXX\<close> above 255 is outside the 8-bit characters and gives \<open>None\<close>, as does a
  number), and an object built by setting its members in order, so that a repeated key
  keeps its first place and its last value. The parser descends with a bound \<open>n\<close> on its
  depth of calls; \<open>JSON_parse\<close> starts it with the length of the text.
\<close>

definition is_ws :: "char \<Rightarrow> bool" where
  "is_ws c \<longleftrightarrow> c = CHR '' '' \<or> c = CHR 0x09 \<or> c = CHR 0x0A \<or> c = CHR 0x0D"

definition hex_val :: "char \<Rightarrow> nat option" where
  "hex_val c =
     (let n = (of_char c :: nat) in
      if 48 \<le> n \<and> n \<le> 57 then Some (n - 48)
      else if 97 \<le> n \<and> n \<le> 102 then Some (n - 87)
      else if 65 \<le> n \<and> n \<le> 70 then Some (n - 55)
      else None)"

definition hex4 :: "char \<Rightarrow> char \<Rightarrow> char \<Rightarrow> char \<Rightarrow> char option" where
  "hex4 a b c d =
     (case (hex_val a, hex_val b, hex_val c, hex_val d) of
        (Some x, Some y, Some z, Some w) \<Rightarrow>
          (let n = ((x * 16 + y) * 16 + z) * 16 + w in
           if n < 256 then Some (char_of n) else None)
      | _ \<Rightarrow> None)"

definition unescape :: "char \<Rightarrow> char option" where
  "unescape e =
     (if e = CHR 0x22 then Some (CHR 0x22)
      else if e = CHR 0x5C then Some (CHR 0x5C)
      else if e = CHR ''/'' then Some (CHR ''/'')
      else if e = CHR ''b'' then Some (CHR 0x08)
      else if e = CHR ''f'' then Some (CHR 0x0C)
      else if e = CHR ''n'' then Some (CHR 0x0A)
      else if e = CHR ''r'' then Some (CHR 0x0D)
      else if e = CHR ''t'' then Some (CHR 0x09)
      else None)"

definition cons_char :: "char \<Rightarrow> (string \<times> string) option \<Rightarrow> (string \<times> string) option" where
  "cons_char c r = (case r of Some (s, rest) \<Rightarrow> Some (c # s, rest) | None \<Rightarrow> None)"

text \<open>The characters of a string after its opening quote, and the text after its closing quote.\<close>

fun parse_chars :: "string \<Rightarrow> (string \<times> string) option" where
  "parse_chars [] = None"
| "parse_chars (c # cs) =
     (if c = CHR 0x22 then Some ([], cs)
      else if c = CHR 0x5C then
        (case cs of
           [] \<Rightarrow> None
         | e # cs1 \<Rightarrow>
             if e = CHR ''u'' then
               (case cs1 of
                  h1 # h2 # h3 # h4 # cs2 \<Rightarrow>
                    (case hex4 h1 h2 h3 h4 of
                       Some ch \<Rightarrow> cons_char ch (parse_chars cs2)
                     | None \<Rightarrow> None)
                | _ \<Rightarrow> None)
             else
               (case unescape e of
                  Some ch \<Rightarrow> cons_char ch (parse_chars cs1)
                | None \<Rightarrow> None))
      else if (of_char c :: nat) < 32 then None
      else cons_char c (parse_chars cs))"

fun json_obj_set :: "(string \<times> json) list \<Rightarrow> string \<Rightarrow> json \<Rightarrow> (string \<times> json) list" where
  "json_obj_set [] k v = [(k, v)]"
| "json_obj_set ((k', v') # kvs) k v =
     (if k' = k then (k, v) # kvs else (k', v') # json_obj_set kvs k v)"

fun parse_value :: "nat \<Rightarrow> string \<Rightarrow> (json \<times> string) option"
  and parse_elements :: "nat \<Rightarrow> json list \<Rightarrow> string \<Rightarrow> (json list \<times> string) option"
  and parse_members ::
    "nat \<Rightarrow> (string \<times> json) list \<Rightarrow> string \<Rightarrow> ((string \<times> json) list \<times> string) option"
where
  "parse_value 0 s = None"
| "parse_value (Suc n) s =
     (case dropWhile is_ws s of
        [] \<Rightarrow> None
      | c # cs \<Rightarrow>
          if c = CHR ''n'' then (if take 3 cs = ''ull'' then Some (JNull, drop 3 cs) else None)
          else if c = CHR ''t'' then
            (if take 3 cs = ''rue'' then Some (JBool True, drop 3 cs) else None)
          else if c = CHR ''f'' then
            (if take 4 cs = ''alse'' then Some (JBool False, drop 4 cs) else None)
          else if c = CHR 0x22 then
            (case parse_chars cs of
               Some (str, rest) \<Rightarrow> Some (JString str, rest)
             | None \<Rightarrow> None)
          else if c = CHR ''['' then
            (case dropWhile is_ws cs of
               [] \<Rightarrow> None
             | d # rest \<Rightarrow>
                 if d = CHR '']'' then Some (JArray [], rest)
                 else (case parse_elements n [] cs of
                         Some (vs, rest') \<Rightarrow> Some (JArray vs, rest')
                       | None \<Rightarrow> None))
          else if c = CHR ''{'' then
            (case dropWhile is_ws cs of
               [] \<Rightarrow> None
             | d # rest \<Rightarrow>
                 if d = CHR ''}'' then Some (JObject [], rest)
                 else (case parse_members n [] cs of
                         Some (kvs, rest') \<Rightarrow> Some (JObject kvs, rest')
                       | None \<Rightarrow> None))
          else None)"
| "parse_elements 0 acc s = None"
| "parse_elements (Suc n) acc s =
     (case parse_value n s of
        None \<Rightarrow> None
      | Some (v, rest) \<Rightarrow>
          (case dropWhile is_ws rest of
             [] \<Rightarrow> None
           | d # rest' \<Rightarrow>
               if d = CHR '','' then parse_elements n (acc @ [v]) rest'
               else if d = CHR '']'' then Some (acc @ [v], rest')
               else None))"
| "parse_members 0 acc s = None"
| "parse_members (Suc n) acc s =
     (case dropWhile is_ws s of
        [] \<Rightarrow> None
      | q # cs \<Rightarrow>
          if q \<noteq> CHR 0x22 then None
          else
            (case parse_chars cs of
               None \<Rightarrow> None
             | Some (k, rest) \<Rightarrow>
                 (case dropWhile is_ws rest of
                    [] \<Rightarrow> None
                  | colon # rest1 \<Rightarrow>
                      if colon \<noteq> CHR '':'' then None
                      else
                        (case parse_value n rest1 of
                           None \<Rightarrow> None
                         | Some (v, rest2) \<Rightarrow>
                             (case dropWhile is_ws rest2 of
                                [] \<Rightarrow> None
                              | d # rest3 \<Rightarrow>
                                  if d = CHR '','' then parse_members n (json_obj_set acc k v) rest3
                                  else if d = CHR ''}'' then Some (json_obj_set acc k v, rest3)
                                  else None)))))"

definition JSON_parse :: "string \<Rightarrow> json option" where
  "JSON_parse s =
     (case parse_value (length s) s of
        Some (j, rest) \<Rightarrow> if dropWhile is_ws rest = [] then Some j else None
      | None \<Rightarrow> None)"

text \<open>
  JSON data that stands for a JavaScript value: no object has the same key twice.
\<close>

fun wf_json :: "json \<Rightarrow> bool" where
  "wf_json (JArray xs) = (\<forall>x \<in> set xs. wf_json x)"
| "wf_json (JObject kvs) = (distinct (map fst kvs) \<and> (\<forall>kv \<in> set kvs. wf_json (snd kv)))"
| "wf_json _ = True"

text \<open>Reading a property of a parsed object: \<^verbatim>\<open>undefined\<close> is \<open>None\<close>.\<close>

definition json_member :: "json \<Rightarrow> string \<Rightarrow> json option" where
  "json_member j k = (case j of JObject kvs \<Rightarrow> map_of kvs k | _ \<Rightarrow> None)"

text \<open>One member of an object as \<open>stringify\<close> writes it.\<close>

definition member_text :: "string \<times> json \<Rightarrow> string" where
  "member_text = (\<lambda>(k, v). quote k @ CHR '':'' # stringify v)"

section \<open>The rewrite of the bundle: \<^verbatim>\<open>generateBundle\<close>\<close>

definition virtualModuleId :: string where
  "virtualModuleId = ''@astrojs-ssr-virtual-entry''"

definition resolvedVirtualModuleId :: string where
  "resolvedVirtualModuleId = CHR 0x00 # virtualModuleId"

definition manifestReplace :: string where
  "manifestReplace = ''@@ASTRO_MANIFEST_REPLACE@@''"

text \<open>
  The value that \<^verbatim>\<open>JSON.stringify(manifest)\<close> serializes: the properties of the manifest
  in the order of the object literal, \<^verbatim>\<open>site\<close> left out when it is \<^verbatim>\<open>undefined\<close>, the
  function \<^verbatim>\<open>astroRemark\<close> written as \<^verbatim>\<open>null\<close> inside its array, and the properties of the
  \<^verbatim>\<open>entryModules\<close> object read from the store.
\<close>

definition route_json :: "SerializedRouteInfo \<Rightarrow> json" where
  "route_json r =
     JObject [(''file'', JString (route_file r)),
              (''links'', JArray (map JString (links r))),
              (''scripts'', JArray (map JString (scripts r))),
              (''routeData'', routeData r)]"

definition table_json :: "table \<Rightarrow> json" where
  "table_json t = JObject (map (\<lambda>(k, v). (k, JString v)) t)"

definition manifest_json :: "store \<Rightarrow> SerializedSSRManifest \<Rightarrow> json" where
  "manifest_json st m =
     JObject
       ([(''routes'', JArray (map route_json (routes m)))] @
        (case site m of Some s \<Rightarrow> [(''site'', JString s)] | None \<Rightarrow> []) @
        [(''markdown'', JObject [(''render'', JArray [JNull, snd (markdown m)])]),
         (''pageMap'', pageMap m),
         (''renderers'', JArray (renderers m)),
         (''entryModules'', table_json (cells st (entryModules m)))])"

text \<open>
  The regular expression \<^verbatim>\<open>['"]@@ASTRO_MANIFEST_REPLACE@@['"]\<close>: a match at the start of
  \<open>s\<close>, and the index of the leftmost match. \<^verbatim>\<open>code.replace(exp, () => text)\<close> replaces
  the leftmost match by \<open>text\<close>, taken literally, and leaves a string without a match as
  it is.
\<close>

definition is_quote :: "char \<Rightarrow> bool" where
  "is_quote c \<longleftrightarrow> c = CHR 0x27 \<or> c = CHR 0x22"

definition placeholder_at :: "string \<Rightarrow> bool" where
  "placeholder_at s =
     (case s of
        [] \<Rightarrow> False
      | q # cs \<Rightarrow>
          is_quote q \<and> take (length manifestReplace) cs = manifestReplace \<and>
          (case drop (length manifestReplace) cs of [] \<Rightarrow> False | q' # _ \<Rightarrow> is_quote q'))"

fun find_placeholder :: "string \<Rightarrow> nat option" where
  "find_placeholder [] = None"
| "find_placeholder (c # cs) =
     (if placeholder_at (c # cs) then Some 0 else map_option Suc (find_placeholder cs))"

definition replace_placeholder :: "string \<Rightarrow> string \<Rightarrow> string" where
  "replace_placeholder code text =
     (case find_placeholder code of
        None \<Rightarrow> code
      | Some i \<Rightarrow> take i code @ text @ drop (i + length manifestReplace + 2) code)"

text \<open>
  An entry of the bundle is an asset or a chunk; of a chunk, the identifiers of its
  modules and its code.
\<close>

datatype bundle_entry = OutputAsset | OutputChunk "string list" string

definition rewrite_chunk :: "string \<Rightarrow> bundle_entry \<Rightarrow> bundle_entry" where
  "rewrite_chunk text chunk =
     (case chunk of
        OutputAsset \<Rightarrow> OutputAsset
      | OutputChunk mods code \<Rightarrow>
          if resolvedVirtualModuleId \<in> set mods
          then OutputChunk mods (replace_placeholder code text)
          else OutputChunk mods code)"

definition generateBundle ::
  "'route build_env \<Rightarrow> StaticBuildOptions \<Rightarrow> 'route BuildInternals \<Rightarrow>
   (string \<times> bundle_entry) list \<Rightarrow> store \<Rightarrow> (string \<times> bundle_entry) list \<times> store" where
  "generateBundle b opts internals bundle st =
     (let (manifest, st1) = buildManifest b opts internals st
      in (map (\<lambda>(chunkName, chunk).
                 (chunkName, rewrite_chunk (stringify (manifest_json st1 manifest)) chunk))
            bundle,
          st1))"

section \<open>Concrete inputs\<close>

text \<open>
  A small environment and a slot map on which the theorems below are instantiated: slot
  \<open>default\<close> is the function \<open>0\<close>, which yields a template whose single expression is the
  function \<open>1\<close>, which adds its two arguments; slot \<open>empty\<close> is the empty string.
\<close>

definition example_env :: "'r env" where
  "example_env =
     \<lparr>call_fn = (\<lambda>k args.
          if k = 0 then Inr (VTemplate [VFun 1])
          else if k = 1 then
            (case args of [VNum a, VNum b] \<Rightarrow> Inr (VNum (a + b)) | _ \<Rightarrow> Inl TypeError)
          else Inr VUndefined),
      renderSlot = (\<lambda>_ v. case v of VFun k \<Rightarrow> Inr (VStr ''<p>slot</p>'') | _ \<Rightarrow> Inr v),
      String_of = (\<lambda>v. case v of
                          VStr s \<Rightarrow> s
                        | VNum n \<Rightarrow> (if n = 3 then ''3'' else ''0'')
                        | _ \<Rightarrow> ''[object Object]''),
      isCSSRequest = (\<lambda>p. False),
      isScriptRequest = (\<lambda>p. False),
      bold = (\<lambda>s. s)\<rparr>"

definition example_slot_record :: slot_record where
  "example_slot_record =
     \<lparr>own = [(''default'', VFun 0), (''empty'', VStr [])], inherited = (\<lambda>_. VUndefined)\<rparr>"

definition example_Slots :: "unit Slots" where
  "example_Slots =
     \<lparr>cache = Map.empty, result = (), slots = Some example_slot_record,
      getters = [''default'', ''empty'']\<rparr>"

definition example_args :: "bool \<Rightarrow> bool \<Rightarrow> unit CreateResultArgs" where
  "example_args is_ssr is_legacy =
     \<lparr>ssr = is_ssr, legacyBuild = is_legacy, logging = (), origin = ''http://localhost:3000'',
      markdownRender = VNull, params = VObject, pathname = ''/'', args_renderers = [],
      resolve = (\<lambda>s. Inr s), args_site = None, args_links = None, args_scripts = None,
      request_url = ''http://localhost:3000/''\<rparr>"

definition example_url_env :: url_env where
  "example_url_env = \<lparr>URL_origin = (\<lambda>s. take 21 s), createCanonicalURL = (\<lambda>p b. b @ tl p)\<rparr>"

definition example_global :: AstroGlobalPartial where
  "example_global = \<lparr>global_resolve = (\<lambda>p. Inl (Error ''legacy resolve''))\<rparr>"

text \<open>
  The two pages of the manifest example: one with hoisted script \<open>H\<close> and scripts
  \<open>[A, B]\<close>, one with no hoisted script and scripts \<open>[C]\<close>. The \<^verbatim>\<open>Map\<close> of the internals
  is at address \<open>0\<close> and already has a bundle for the before-hydration specifier.
\<close>

definition example_build_env :: "string build_env" where
  "example_build_env =
     \<lparr>serializeRouteData = (\<lambda>r. JObject [(''pattern'', JString r)]),
      BEFORE_HYDRATION_SCRIPT_ID = ''astro:scripts/before-hydration.js'',
      astroRemark = 7\<rparr>"

definition example_internals :: "string BuildInternals" where
  "example_internals =
     \<lparr>pageData =
        [\<lparr>css = [''a.css''], hoistedScript = Some ''H'', page_scripts = [''A'', ''B''],
          route = ''/''\<rparr>,
         \<lparr>css = [], hoistedScript = None, page_scripts = [''C''], route = ''/about''\<rparr>],
      entrySpecifierToBundleMap = 0\<rparr>"

definition example_store :: store where
  "example_store =
     \<lparr>cells = (\<lambda>_. [])
        (0 := [(''astro:scripts/before-hydration.js'', ''chunks/hydrate.js''),
               (''@components/X'', ''chunks/X.js'')]),
      next_addr = 1\<rparr>"

definition example_opts :: StaticBuildOptions where
  "example_opts =
     \<lparr>astroConfig = \<lparr>config_site = Some ''https://example.com'', config_markdown = JObject []\<rparr>\<rparr>"

text \<open>
  A bundle of two entries: the chunk of the virtual module, whose code calls the
  deserializer on the quoted placeholder, and an asset.
\<close>

definition example_code :: string where
  "example_code = ''m = f('' @ [CHR 0x27] @ manifestReplace @ [CHR 0x27] @ '');''"

definition example_bundle :: "(string \<times> bundle_entry) list" where
  "example_bundle =
     [(''entry.mjs'', OutputChunk [''src/pages/index.astro'', resolvedVirtualModuleId] example_code),
      (''style.css'', OutputAsset)]"

section \<open>Slots: construction, caching and calls with arguments\<close>

lemma this_defined_mono: "this_defined ps k \<Longrightarrow> this_defined (ps @ qs) k"
  by (auto simp: this_defined_def)

lemma define_slots_reserved:
  "k \<in> set keys \<Longrightarrow> this_defined ps k \<Longrightarrow>
   \<exists>k'. k' \<in> set keys \<and> define_slots ps keys = Inl (Error (reserved_message k'))"
proof (induction keys arbitrary: ps)
  case Nil
  then show ?case by simp
next
  case (Cons key keys)
  show ?case
  proof (cases "this_defined ps key")
    case True
    then show ?thesis by auto
  next
    case False
    with Cons.prems have "k \<in> set keys" by auto
    moreover from Cons.prems have "this_defined (ps @ [key]) k"
      by (simp add: this_defined_mono)
    ultimately obtain k' where "k' \<in> set keys"
      "define_slots (ps @ [key]) keys = Inl (Error (reserved_message k'))"
      using Cons.IH by blast
    with False show ?thesis by auto
  qed
qed

text \<open>
  Without a slot map nothing exists and nothing is rendered; a slot that \<^verbatim>\<open>has\<close> rejects
  (absent, or present with a falsy content) renders to \<^verbatim>\<open>undefined\<close> without an event
  and without a cache entry; and a render that fails leaves the cache as it was, so that
  the next call renders again.
\<close>

lemma no_slot_map:
  "slots s = None \<Longrightarrow> \<not> has s n \<and> render env s n args = (Inr VUndefined, s, [])"
  by (simp add: has_def render_def)

lemma render_rejected_slot:
  "\<not> has s n \<Longrightarrow> cache s n = None \<Longrightarrow> render env s n args = (Inr VUndefined, s, [])"
  by (cases "slots s") (simp_all add: render_def)

lemma render_failure_not_cached:
  assumes "slots s = Some r" and "has s n" and "cache s n = None"
    and "renderSlot env (result s) (get_prop r n) = Inl e"
  shows "render env s n [] = (Inl e, s, [RenderSlot (get_prop r n)])"
  using assms by (simp add: render_def render_content_def)

text \<open>
  C1. Let the slot map contain \<open>n\<close> with content \<open>c\<close> that \<^verbatim>\<open>has\<close> accepts (a truthy
  value, which every slot function is), let nothing be cached for \<open>n\<close> yet, and let
  \<^verbatim>\<open>renderSlot\<close> return \<open>res\<close> for \<open>c\<close>. Then the first \<^verbatim>\<open>render(n)\<close> hands \<open>c\<close> to
  \<^verbatim>\<open>renderSlot\<close> once, returns the coerced result and stores it under \<open>n\<close>; the second
  \<^verbatim>\<open>render(n)\<close>, on the object the first call left, returns the same value with no event
  at all: over both calls the slot content is invoked exactly once.
\<close>

theorem render_twice_invokes_once:
  assumes "slots s = Some r"
    and "map_of (own r) n = Some c"
    and "truthy c"
    and "cache s n = None"
    and "renderSlot env (result s) c = Inr res"
  shows "\<exists>s1. render env s n [] = (Inr (coerce env res), s1, [RenderSlot c]) \<and>
              cache s1 n = Some (coerce env res) \<and>
              render env s1 n [] = (Inr (coerce env res), s1, [])"
proof -
  let ?v = "coerce env res"
  let ?s1 = "s\<lparr>cache := (cache s)(n \<mapsto> ?v)\<rparr>"
  from assms have first: "render env s n [] = (Inr ?v, ?s1, [RenderSlot c])"
    by (simp add: render_def render_content_def has_def get_prop_def)
  from assms have second: "render env ?s1 n [] = (Inr ?v, ?s1, [])"
    by (simp add: render_def cache_get_def)
  from first second show ?thesis by auto
qed

theorem render_twice_invokes_once_witness:
  "Slots_new () (Some example_slot_record) = Inr example_Slots \<and>
   (\<exists>s1. render example_env example_Slots ''default'' [] =
            (Inr (VStr ''<p>slot</p>''), s1, [RenderSlot (VFun 0)]) \<and>
          cache s1 ''default'' = Some (VStr ''<p>slot</p>'') \<and>
          render example_env s1 ''default'' [] = (Inr (VStr ''<p>slot</p>''), s1, []))"
  using render_twice_invokes_once
    [of example_Slots example_slot_record "''default''" "VFun 0" example_env "VStr ''<p>slot</p>''"]
  by (simp add: example_Slots_def example_slot_record_def example_env_def coerce_def
      Slots_new_def Object_keys_def this_defined_def Slots_prototype_def Object_prototype_def)

text \<open>
  C5. Let slot \<open>n\<close> be a function \<open>k\<close> whose call yields a template with exactly one
  embedded expression, the function \<open>f\<close>. Then \<^verbatim>\<open>render(n, [1, 2])\<close> calls \<open>k\<close>, then \<open>f\<close>
  with exactly the arguments \<open>1\<close> and \<open>2\<close>, and hands the result of \<open>f\<close> to \<^verbatim>\<open>renderSlot\<close>. Whatever the cache \<open>c\<close> holds, the outcome and the events are the
  same (the cache is not read) and the object is returned as it was (the cache is not
  written).
\<close>

theorem render_with_arguments_bypasses_cache:
  assumes "slots s = Some r"
    and "map_of (own r) n = Some (VFun k)"
    and "call_fn env k [] = Inr (VTemplate [VFun f])"
    and "args = [VNum 1, VNum 2]"
    and "call_fn env f args = Inr slot"
    and "renderSlot env (result s) slot = Inr res"
  shows "render env (s\<lparr>cache := c\<rparr>) n args =
           (Inr (coerce env res), s\<lparr>cache := c\<rparr>,
            [Invoked k [], Invoked f [VNum 1, VNum 2], RenderSlot slot])"
proof -
  from assms have "has (s\<lparr>cache := c\<rparr>) n"
    by (simp add: has_def get_prop_def)
  moreover from assms have "js_call env (get_prop r n) [] = (Inr (VTemplate [VFun f]), [Invoked k []])"
    by (simp add: js_call_def get_prop_def)
  moreover have "getFunctionExpression (VTemplate [VFun f]) = VFun f"
    by (simp add: getFunctionExpression_def)
  moreover from assms have "js_call env (VFun f) args = (Inr slot, [Invoked f [VNum 1, VNum 2]])"
    by (simp add: js_call_def)
  ultimately show ?thesis
    using assms by (simp add: render_def)
qed

theorem render_with_arguments_bypasses_cache_witness:
  "render example_env (example_Slots\<lparr>cache := [''default'' \<mapsto> VStr ''cached'']\<rparr>) ''default''
     [VNum 1, VNum 2] =
     (Inr (VStr ''3''), example_Slots\<lparr>cache := [''default'' \<mapsto> VStr ''cached'']\<rparr>,
      [Invoked 0 [], Invoked 1 [VNum 1, VNum 2], RenderSlot (VNum 3)])"
  using render_with_arguments_bypasses_cache
    [of example_Slots example_slot_record "''default''" 0 example_env 1 "[VNum 1, VNum 2]"
       "VNum 3" "VNum 3" "[''default'' \<mapsto> VStr ''cached'']"]
  by (simp add: example_Slots_def example_slot_record_def example_env_def coerce_def)

text \<open>
  C6. If some key of the slot map is a name that a lookup on a new \<^verbatim>\<open>Slots\<close> object
  already finds (\<open>has\<close>, \<open>render\<close>, \<open>constructor\<close>, or a property of \<^verbatim>\<open>Object.prototype\<close>),
  the constructor throws the reserved-name error for a key of the map. No object is
  returned, so nothing can be rendered.
\<close>

theorem Slots_new_reserved_name_fails:
  assumes "k \<in> set (Object_keys r)" and "this_defined [] k"
  shows "\<exists>k'. k' \<in> set (Object_keys r) \<and>
           Slots_new res (Some r) = Inl (Error (reserved_message k'))"
proof -
  obtain k' where "k' \<in> set (Object_keys r)"
    "define_slots [] (Object_keys r) = Inl (Error (reserved_message k'))"
    using define_slots_reserved [OF assms] by blast
  then show ?thesis by (auto simp: Slots_new_def)
qed

theorem Slots_new_reserved_name_fails_witness:
  "this_defined [] ''has'' \<and> this_defined [] ''render'' \<and>
   (\<exists>k'. k' \<in> set [''default'', ''has''] \<and>
      Slots_new ()
        (Some \<lparr>own = [(''default'', VFun 0), (''has'', VFun 0)], inherited = (\<lambda>_. VUndefined)\<rparr>) =
      Inl (Error (reserved_message k')))"
  using Slots_new_reserved_name_fails
    [of "''has''" "\<lparr>own = [(''default'', VFun 0), (''has'', VFun 0)], inherited = (\<lambda>_. VUndefined)\<rparr>" "()"]
  by (simp add: Object_keys_def this_defined_def Slots_prototype_def)

section \<open>The render context: redirect and resolve\<close>

text \<open>
  C2. Whenever the \<^verbatim>\<open>Slots\<close> object of the call can be built (the only step of
  \<^verbatim>\<open>createAstro\<close> that can throw), \<^verbatim>\<open>createAstro\<close> returns an \<^verbatim>\<open>Astro\<close> object, with
  \<^verbatim>\<open>ssr\<close> true or false. With \<^verbatim>\<open>ssr = true\<close>, \<^verbatim>\<open>redirect('/foo')\<close> returns a response of
  status 301 whose \<^verbatim>\<open>Location\<close> header is \<open>/foo\<close>; with \<^verbatim>\<open>ssr = false\<close> the object is
  built all the same and it is the call of \<^verbatim>\<open>redirect\<close>, with any path, that throws the
  "only available with SSR" error.
\<close>

theorem createAstro_redirect:
  assumes "Slots_new (createResult args) sl = Inr S"
  shows "\<exists>A. createAstro env u args astroGlobal props sl = Inr A \<and>
           (if ssr args
            then Astro_redirect A ''/foo'' =
                   Inr \<lparr>body = VNull, status = 301, headers = [(''Location'', ''/foo'')]\<rparr>
            else Astro_redirect A path =
                   Inl (Error ''Oops, you are trying to use Astro.redirect, which is only available with SSR.''))"
proof (cases "ssr args")
  case True
  with assms show ?thesis
    by (simp add: createAstro_def)
next
  case False
  with assms show ?thesis
    by (simp add: createAstro_def onlyAvailableInSSR_def)
qed

theorem createAstro_redirect_witness:
  "(\<exists>A. createAstro example_env example_url_env (example_args True False) example_global
          VObject None = Inr A \<and>
        Astro_redirect A ''/foo'' =
          Inr \<lparr>body = VNull, status = 301, headers = [(''Location'', ''/foo'')]\<rparr>) \<and>
   (\<exists>A. createAstro example_env example_url_env (example_args False False) example_global
          VObject (Some example_slot_record) = Inr A \<and>
        Astro_redirect A ''/foo'' =
          Inl (Error ''Oops, you are trying to use Astro.redirect, which is only available with SSR.''))"
proof -
  have a: "Slots_new (createResult (example_args True False)) None =
             Inr \<lparr>cache = Map.empty, result = createResult (example_args True False),
                  slots = None, getters = []\<rparr>"
    by (simp add: Slots_new_def)
  have b: "Slots_new (createResult (example_args False False)) (Some example_slot_record) =
             Inr \<lparr>cache = Map.empty, result = createResult (example_args False False),
                  slots = Some example_slot_record, getters = [''default'', ''empty'']\<rparr>"
    by (simp add: Slots_new_def example_slot_record_def Object_keys_def this_defined_def
        Slots_prototype_def Object_prototype_def)
  from createAstro_redirect [OF a, of example_env example_url_env example_global VObject "''/foo''"]
    createAstro_redirect [OF b, of example_env example_url_env example_global VObject "''/foo''"]
  show ?thesis by (simp add: example_args_def)
qed

text \<open>
  C7. When \<^verbatim>\<open>legacyBuild\<close> is false, \<^verbatim>\<open>Astro.resolve(path)\<close> returns the empty string for
  every path, without throwing and without calling the resolver of the partial global;
  it calls \<^verbatim>\<open>warn\<close> exactly once, with the logging options of \<^verbatim>\<open>createResult\<close>, the type
  \<open>deprecation\<close> and the deprecation message for that path.
\<close>

theorem resolve_shim_returns_empty:
  assumes "\<not> legacyBuild args"
    and "createAstro env u args astroGlobal props sl = Inr A"
  shows "Astro_resolve A path =
           (Inr '''', [(logging args, ''deprecation'', resolve_message env path)])"
proof -
  from assms(2) obtain S where "Slots_new (createResult args) sl = Inr S"
    by (auto simp: createAstro_def split: sum.splits)
  with assms show ?thesis
    by (auto simp: createAstro_def)
qed

theorem resolve_shim_returns_empty_witness:
  "\<exists>A. createAstro example_env example_url_env (example_args True False) example_global
          VObject None = Inr A \<and>
        Astro_resolve A ''./theme.css'' =
          (Inr '''',
           [((), ''deprecation'', resolve_message (example_env :: SSRResult env) ''./theme.css'')])"
proof -
  obtain A where a: "createAstro example_env example_url_env (example_args True False)
      example_global VObject None = Inr (A :: unit Astro)"
    by (simp add: createAstro_def Slots_new_def)
  have "\<not> legacyBuild (example_args True False)"
    by (simp add: example_args_def)
  from resolve_shim_returns_empty [OF this a, of "''./theme.css''"] a
  show ?thesis by (simp add: example_args_def)
qed

section \<open>The manifest builder\<close>

lemma push_routes_eq: "push_routes b acc pds = acc @ map (route_info b) pds"
  by (induction pds arbitrary: acc) auto

lemma map_of_obj_set_same: "map_of (obj_set t k v) k = Some v"
  by (induction t k v rule: obj_set.induct) auto

lemma buildManifest_fields:
  "buildManifest b opts internals st = (m, st') \<Longrightarrow>
   routes m = map (route_info b) (eachPageData internals) \<and>
   site m = config_site (astroConfig opts) \<and>
   pageMap m = JNull \<and> renderers m = [] \<and>
   entryModules m = next_addr st"
  by (auto simp: buildManifest_def Object_fromEntries_def push_routes_eq)

lemma buildManifest_store:
  "buildManifest b opts internals st = (m, st') \<Longrightarrow>
   next_addr st' = Suc (next_addr st) \<and>
   cells st' = (cells st)
     (next_addr st :=
        obj_set (fold (\<lambda>(k, v) t. obj_set t k v)
                   (Map_entries st (entrySpecifierToBundleMap internals)) [])
          (BEFORE_HYDRATION_SCRIPT_ID b) no_before_hydration)"
  by (auto simp: buildManifest_def Object_fromEntries_def assign_prop_def)

lemma buildManifest_frame:
  assumes "buildManifest b opts internals st = (m, st')" and "a < next_addr st"
  shows "cells st' a = cells st a"
  using assms by (simp add: buildManifest_store)

text \<open>
  C3. The manifest has one route per page, in the order of the pages. For the \<open>i\<close>-th
  page, a hoisted script \<open>h\<close> that is present (a non-empty string, what \<^verbatim>\<open>if
  (pageData.hoistedScript)\<close> accepts) comes first and the page's scripts follow in their
  order; without a hoisted script the route's scripts are the page's scripts.
\<close>

theorem buildManifest_scripts:
  assumes "buildManifest b opts internals st = (m, st')"
    and "i < length (eachPageData internals)"
    and "pd = eachPageData internals ! i"
  shows "length (routes m) = length (eachPageData internals) \<and>
         scripts (routes m ! i) =
           (case hoistedScript pd of
              Some h \<Rightarrow> if h \<noteq> [] then h # page_scripts pd else page_scripts pd
            | None \<Rightarrow> page_scripts pd)"
proof -
  from assms(1) have r: "routes m = map (route_info b) (eachPageData internals)"
    by (simp add: buildManifest_fields)
  with assms(2,3) have "routes m ! i = route_info b pd"
    by simp
  then show ?thesis
    using r by (simp add: route_info_def Let_def split: option.splits)
qed

theorem buildManifest_scripts_witness:
  "\<exists>m st'. buildManifest example_build_env example_opts example_internals example_store = (m, st') \<and>
      length (routes m) = 2 \<and>
      scripts (routes m ! 0) = [''H'', ''A'', ''B''] \<and>
      scripts (routes m ! 1) = [''C'']"
proof -
  obtain m st' where
    bm: "buildManifest example_build_env example_opts example_internals example_store = (m, st')"
    by (cases "buildManifest example_build_env example_opts example_internals example_store")
  have p0: "(0::nat) < length (eachPageData example_internals)"
    and p1: "(1::nat) < length (eachPageData example_internals)"
    by (simp_all add: eachPageData_def example_internals_def)
  from buildManifest_scripts [OF bm p0 refl] buildManifest_scripts [OF bm p1 refl] bm
  show ?thesis
    by (simp add: eachPageData_def example_internals_def)
qed

text \<open>
  C4. In the object that the returned manifest has as \<^verbatim>\<open>entryModules\<close>, the
  before-hydration specifier maps to the fixed data URI, whatever the \<^verbatim>\<open>Map\<close> of the
  internals held for that key.
\<close>

theorem buildManifest_before_hydration:
  assumes "buildManifest b opts internals st = (m, st')"
  shows "map_of (cells st' (entryModules m)) (BEFORE_HYDRATION_SCRIPT_ID b) =
           Some ''data:text/javascript;charset=utf-8,//[no before-hydration script]''"
proof -
  from assms have "entryModules m = next_addr st"
    by (simp add: buildManifest_fields)
  moreover from assms have "cells st' (next_addr st) =
      obj_set (fold (\<lambda>(k, v) t. obj_set t k v)
                 (Map_entries st (entrySpecifierToBundleMap internals)) [])
        (BEFORE_HYDRATION_SCRIPT_ID b) no_before_hydration"
    by (simp add: buildManifest_store)
  ultimately show ?thesis
    by (simp add: map_of_obj_set_same no_before_hydration_def)
qed

theorem buildManifest_before_hydration_witness:
  "map_of (Map_entries example_store (entrySpecifierToBundleMap example_internals))
     (BEFORE_HYDRATION_SCRIPT_ID example_build_env) = Some ''chunks/hydrate.js'' \<and>
   (\<exists>m st'. buildManifest example_build_env example_opts example_internals example_store = (m, st') \<and>
      map_of (cells st' (entryModules m)) (BEFORE_HYDRATION_SCRIPT_ID example_build_env) =
        Some ''data:text/javascript;charset=utf-8,//[no before-hydration script]'')"
proof -
  obtain m st' where
    bm: "buildManifest example_build_env example_opts example_internals example_store = (m, st')"
    by (cases "buildManifest example_build_env example_opts example_internals example_store")
  have "map_of (Map_entries example_store (entrySpecifierToBundleMap example_internals))
     (BEFORE_HYDRATION_SCRIPT_ID example_build_env) = Some ''chunks/hydrate.js''"
    by (simp add: Map_entries_def example_store_def example_internals_def example_build_env_def)
  with buildManifest_before_hydration [OF bm] bm show ?thesis
    by simp
qed

text \<open>
  C8. Every manifest that \<^verbatim>\<open>buildManifest\<close> returns has \<^verbatim>\<open>pageMap\<close> equal to \<^verbatim>\<open>null\<close> and
  an empty list of renderers.
\<close>

theorem buildManifest_partial_snapshot:
  assumes "buildManifest b opts internals st = (m, st')"
  shows "pageMap m = JNull \<and> renderers m = []"
  using assms by (simp add: buildManifest_fields)

theorem buildManifest_partial_snapshot_witness:
  "\<exists>m st'. buildManifest example_build_env example_opts example_internals example_store = (m, st') \<and>
      pageMap m = JNull \<and> renderers m = []"
proof -
  obtain m st' where
    bm: "buildManifest example_build_env example_opts example_internals example_store = (m, st')"
    by (cases "buildManifest example_build_env example_opts example_internals example_store")
  from buildManifest_partial_snapshot [OF bm] bm show ?thesis
    by simp
qed

text \<open>
  C10. The object that \<^verbatim>\<open>buildManifest\<close> assigns to is the one \<^verbatim>\<open>Object.fromEntries\<close> has
  just allocated: it is not the \<^verbatim>\<open>Map\<close> of the internals, and after the call that \<^verbatim>\<open>Map\<close>
  (like every cell allocated before the call) holds the entries it held before.
\<close>

theorem buildManifest_leaves_map_unchanged:
  assumes "buildManifest b opts internals st = (m, st')"
    and "entrySpecifierToBundleMap internals < next_addr st"
  shows "entryModules m \<noteq> entrySpecifierToBundleMap internals \<and>
         Map_entries st' (entrySpecifierToBundleMap internals) =
           Map_entries st (entrySpecifierToBundleMap internals)"
proof -
  from assms(1) have fresh: "entryModules m = next_addr st"
    by (simp add: buildManifest_fields)
  with assms(2) have ne: "entryModules m \<noteq> entrySpecifierToBundleMap internals"
    by simp
  from assms have "cells st' (entrySpecifierToBundleMap internals) =
      cells st (entrySpecifierToBundleMap internals)"
    by (rule buildManifest_frame)
  with ne show ?thesis
    by (simp add: Map_entries_def)
qed

theorem buildManifest_leaves_map_unchanged_witness:
  "\<exists>m st'. buildManifest example_build_env example_opts example_internals example_store = (m, st') \<and>
      entryModules m = 1 \<and>
      Map_entries st' 0 =
        [(''astro:scripts/before-hydration.js'', ''chunks/hydrate.js''),
         (''@components/X'', ''chunks/X.js'')] \<and>
      Map_entries st' 0 = Map_entries example_store 0"
proof -
  obtain m st' where
    bm: "buildManifest example_build_env example_opts example_internals example_store = (m, st')"
    by (cases "buildManifest example_build_env example_opts example_internals example_store")
  have "entrySpecifierToBundleMap example_internals < next_addr example_store"
    by (simp add: example_internals_def example_store_def)
  from buildManifest_leaves_map_unchanged [OF bm this] bm buildManifest_fields [OF bm]
  show ?thesis
    by (simp add: example_internals_def example_store_def Map_entries_def)
qed

section \<open>Parsing what \<^verbatim>\<open>JSON.stringify\<close> wrote\<close>

lemma hex_val_hex_digit: "n < 16 \<Longrightarrow> hex_val (hex_digit n) = Some n"
  by (auto simp: hex_val_def hex_digit_def Let_def)

lemma hex_val_zero: "hex_val (CHR ''0'') = Some 0"
  by (simp add: hex_val_def)

lemma hex4_control:
  assumes "(of_char c :: nat) < 32"
  shows "hex4 (CHR ''0'') (CHR ''0'') (hex_digit ((of_char c :: nat) div 16))
           (hex_digit ((of_char c :: nat) mod 16)) = Some c"
proof -
  let ?n = "of_char c :: nat"
  have a: "hex_val (hex_digit (?n div 16)) = Some (?n div 16)"
    using assms by (intro hex_val_hex_digit) simp
  have b: "hex_val (hex_digit (?n mod 16)) = Some (?n mod 16)"
    by (intro hex_val_hex_digit) simp
  have "((0 * 16 + 0) * 16 + ?n div 16) * 16 + ?n mod 16 = ?n"
    by simp
  moreover have "?n < 256" using assms by simp
  ultimately show ?thesis
    by (simp add: hex4_def hex_val_zero a b)
qed

text \<open>Reading back one escaped character gives the character.\<close>

lemma parse_chars_escape:
  "parse_chars (escape c @ rest) = cons_char c (parse_chars rest)"
proof -
  consider (special) "c \<in> {CHR 0x22, CHR 0x5C, CHR 0x08, CHR 0x0C, CHR 0x0A, CHR 0x0D, CHR 0x09}"
    | (control) "c \<notin> {CHR 0x22, CHR 0x5C, CHR 0x08, CHR 0x0C, CHR 0x0A, CHR 0x0D, CHR 0x09}"
        "(of_char c :: nat) < 32"
    | (plain) "c \<notin> {CHR 0x22, CHR 0x5C, CHR 0x08, CHR 0x0C, CHR 0x0A, CHR 0x0D, CHR 0x09}"
        "\<not> (of_char c :: nat) < 32"
    by blast
  then show ?thesis
  proof cases
    case special
    then show ?thesis
      by (auto simp: escape_def unescape_def)
  next
    case control
    then show ?thesis
      by (simp add: escape_def hex4_control)
  next
    case plain
    then show ?thesis
      by (simp add: escape_def)
  qed
qed

lemma parse_chars_quoted:
  "parse_chars (concat (map escape s) @ CHR 0x22 # rest) = Some (s, rest)"
  by (induction s) (simp_all add: parse_chars_escape cons_char_def)

lemma json_obj_set_new:
  "k \<notin> fst ` set acc \<Longrightarrow> json_obj_set acc k v = acc @ [(k, v)]"
  by (induction acc k v rule: json_obj_set.induct) auto

lemma not_ws_simps:
  "\<not> is_ws (CHR ''n'')" "\<not> is_ws (CHR ''t'')" "\<not> is_ws (CHR ''f'')" "\<not> is_ws (CHR 0x22)"
  "\<not> is_ws (CHR ''['')" "\<not> is_ws (CHR ''{'')" "\<not> is_ws (CHR '']'')" "\<not> is_ws (CHR ''}'')"
  "\<not> is_ws (CHR '','')" "\<not> is_ws (CHR '':'')"
  by (simp_all add: is_ws_def)

text \<open>What \<open>stringify\<close> writes never starts with white space.\<close>

lemma stringify_head:
  "\<exists>c cs. stringify j = c # cs \<and> \<not> is_ws c \<and> c \<noteq> CHR '']'' \<and> c \<noteq> CHR ''}''"
  by (cases j) (auto simp: quote_def is_ws_def)


text \<open>
  The elements of a non-empty array and the members of a non-empty object, read back up to
  the closing bracket, given that each element is read back (the induction hypothesis of
  the main lemma). A bound above the length of the text is enough for the parser.
\<close>

lemma parse_elements_join:
  assumes IH: "\<And>x n rest. x \<in> set xs \<Longrightarrow> length (stringify x) \<le> n \<Longrightarrow>
                 parse_value n (stringify x @ rest) = Some (x, rest)"
    and "xs \<noteq> []"
    and "length (join_comma (map stringify xs)) < n"
  shows "parse_elements n acc (join_comma (map stringify xs) @ CHR '']'' # rest) =
           Some (acc @ xs, rest)"
  using assms
proof (induction xs arbitrary: n acc)
  case Nil
  then show ?case by simp
next
  case (Cons x xs)
  from Cons.prems(3) obtain m where n: "n = Suc m"
    by (cases n) auto
  show ?case
  proof (cases xs)
    case Nil
    with Cons.prems(3) n have "length (stringify x) \<le> m" by simp
    then have "parse_value m (stringify x @ CHR '']'' # rest) = Some (x, CHR '']'' # rest)"
      by (intro Cons.prems(1)) simp_all
    with Nil n show ?thesis
      by (simp add: not_ws_simps)
  next
    case (Cons y ys)
    let ?tail = "join_comma (map stringify xs) @ CHR '']'' # rest"
    from Cons Cons.prems(3) n have len: "length (stringify x) \<le> m"
      and len': "length (join_comma (map stringify xs)) < m"
      by simp_all
    from len have "parse_value m (stringify x @ CHR '','' # ?tail) = Some (x, CHR '','' # ?tail)"
      by (intro Cons.prems(1)) simp_all
    moreover have "parse_elements m (acc @ [x]) ?tail = Some ((acc @ [x]) @ xs, rest)"
      using Cons len' by (intro Cons.IH) (simp_all add: Cons.prems(1))
    ultimately show ?thesis
      using Cons n by (simp add: not_ws_simps)
  qed
qed

lemma parse_members_join:
  assumes IH: "\<And>kv n rest. kv \<in> set kvs \<Longrightarrow> length (stringify (snd kv)) \<le> n \<Longrightarrow>
                 parse_value n (stringify (snd kv) @ rest) = Some (snd kv, rest)"
    and "kvs \<noteq> []"
    and "distinct (map fst (acc @ kvs))"
    and "length (join_comma (map member_text kvs)) < n"
  shows "parse_members n acc (join_comma (map member_text kvs) @ CHR ''}'' # rest) =
           Some (acc @ kvs, rest)"
  using assms
proof (induction kvs arbitrary: n acc)
  case Nil
  then show ?case by simp
next
  case (Cons kv kvs)
  obtain k v where kv: "kv = (k, v)" by (cases kv)
  from Cons.prems(4) obtain m where n: "n = Suc m"
    by (cases n) auto
  from Cons.prems(3) kv have new: "k \<notin> fst ` set acc"
    by auto
  have key: "\<And>t. parse_chars (concat (map escape k) @ CHR 0x22 # t) = Some (k, t)"
    by (rule parse_chars_quoted)
  show ?case
  proof (cases kvs)
    case Nil
    with Cons.prems(4) n kv have "length (stringify v) \<le> m"
      by (simp add: member_text_def)
    then have "parse_value m (stringify v @ CHR ''}'' # rest) = Some (v, CHR ''}'' # rest)"
      using Cons.prems(1) [of kv m] kv by simp
    with Nil n kv new show ?thesis
      by (simp add: member_text_def quote_def not_ws_simps key json_obj_set_new)
  next
    case (Cons kv' kvs')
    let ?tail = "join_comma (map member_text kvs) @ CHR ''}'' # rest"
    from Cons Cons.prems(4) n kv have len: "length (stringify v) \<le> m"
      and len': "length (join_comma (map member_text kvs)) < m"
      by (simp_all add: member_text_def)
    from len have "parse_value m (stringify v @ CHR '','' # ?tail) = Some (v, CHR '','' # ?tail)"
      using Cons.prems(1) [of kv m] kv by simp
    moreover have "parse_members m (acc @ [kv]) ?tail = Some ((acc @ [kv]) @ kvs, rest)"
      using Cons len' Cons.prems(3) by (intro Cons.IH) (simp_all add: Cons.prems(1))
    ultimately show ?thesis
      using Cons n kv new
      by (simp add: member_text_def quote_def not_ws_simps key json_obj_set_new)
  qed
qed

lemma stringify_JObject:
  "stringify (JObject kvs) = CHR ''{'' # join_comma (map member_text kvs) @ ''}''"
  by (simp add: member_text_def)

lemma join_comma_head:
  assumes "xs \<noteq> []" and "\<And>x. x \<in> set xs \<Longrightarrow> \<exists>c cs. x = c # cs \<and> \<not> is_ws c \<and> c \<noteq> d"
  shows "\<exists>c cs. join_comma xs @ rest = c # cs \<and> \<not> is_ws c \<and> c \<noteq> d"
proof (cases xs)
  case Nil
  with assms show ?thesis by simp
next
  case (Cons x ys)
  with assms(2) [of x] obtain c cs where "x = c # cs" "\<not> is_ws c" "c \<noteq> d"
    by auto
  with Cons show ?thesis
    by (cases ys) auto
qed

text \<open>
  The round trip: with a bound of at least the length of what was written, the parser
  returns the value and leaves the text that follows it. So \<open>JSON_parse\<close>, which starts
  the parser with the length of its input, always returns on the output of \<open>stringify\<close>.
\<close>

lemma parse_value_stringify:
  "wf_json j \<Longrightarrow> length (stringify j) \<le> n \<Longrightarrow>
   parse_value n (stringify j @ rest) = Some (j, rest)"
proof (induction j arbitrary: n rest)
  case JNull
  then obtain m where "n = Suc m" by (cases n) auto
  then show ?case by (simp add: not_ws_simps)
next
  case (JBool b)
  then obtain m where "n = Suc m" by (cases n) (auto split: if_splits)
  then show ?case by (simp add: not_ws_simps)
next
  case (JString s)
  then obtain m where "n = Suc m" by (cases n) (auto simp: quote_def)
  then show ?case by (simp add: quote_def not_ws_simps parse_chars_quoted)
next
  case (JArray xs)
  then obtain m where n: "n = Suc m" by (cases n) auto
  show ?case
  proof (cases "xs = []")
    case True
    with n show ?thesis by (simp add: not_ws_simps)
  next
    case False
    have IH: "\<And>x n rest. x \<in> set xs \<Longrightarrow> length (stringify x) \<le> n \<Longrightarrow>
                parse_value n (stringify x @ rest) = Some (x, rest)"
      using JArray.IH JArray.prems(1) by simp
    from JArray.prems(2) n have "length (join_comma (map stringify xs)) < m"
      by simp
    from parse_elements_join [OF IH False this, of "[]" rest]
    have pe: "parse_elements m [] (join_comma (map stringify xs) @ CHR '']'' # rest) =
                Some (xs, rest)"
      by simp
    have "\<exists>c cs. join_comma (map stringify xs) @ CHR '']'' # rest = c # cs \<and>
            \<not> is_ws c \<and> c \<noteq> CHR '']''"
    proof (intro join_comma_head)
      show "map stringify xs \<noteq> []" using False by simp
    next
      fix x assume "x \<in> set (map stringify xs)"
      then obtain j' where "x = stringify j'" by auto
      with stringify_head [of j'] show "\<exists>c cs. x = c # cs \<and> \<not> is_ws c \<and> c \<noteq> CHR '']''"
        by blast
    qed
    then obtain c cs where "join_comma (map stringify xs) @ CHR '']'' # rest = c # cs"
      "\<not> is_ws c" "c \<noteq> CHR '']''"
      by blast
    with pe n show ?thesis
      by (simp add: not_ws_simps)
  qed
next
  case (JObject kvs)
  then obtain m where n: "n = Suc m" by (cases n) auto
  show ?case
  proof (cases "kvs = []")
    case True
    with n show ?thesis by (simp add: not_ws_simps)
  next
    case False
    have IH: "\<And>kv n rest. kv \<in> set kvs \<Longrightarrow> length (stringify (snd kv)) \<le> n \<Longrightarrow>
                parse_value n (stringify (snd kv) @ rest) = Some (snd kv, rest)"
    proof -
      fix kv n rest
      assume "kv \<in> set kvs" "length (stringify (snd kv)) \<le> n"
      moreover have "snd kv \<in> Basic_BNFs.snds kv"
        by (cases kv) simp
      ultimately show "parse_value n (stringify (snd kv) @ rest) = Some (snd kv, rest)"
        using JObject.IH [of kv "snd kv" n rest] JObject.prems(1) by simp
    qed
    from JObject.prems(2) have "length (CHR ''{'' # join_comma (map member_text kvs) @ ''}'') \<le> n"
      by (simp only: stringify_JObject)
    with n have len: "length (join_comma (map member_text kvs)) < m"
      by simp
    from JObject.prems(1) have "distinct (map fst ([] @ kvs))"
      by simp
    from parse_members_join [OF IH False this len, of rest]
    have pm: "parse_members m [] (join_comma (map member_text kvs) @ CHR ''}'' # rest) =
                Some (kvs, rest)"
      by simp
    have "\<exists>c cs. join_comma (map member_text kvs) @ CHR ''}'' # rest = c # cs \<and>
            \<not> is_ws c \<and> c \<noteq> CHR ''}''"
      using False by (intro join_comma_head) (auto simp: member_text_def quote_def is_ws_def)
    then obtain c cs where "join_comma (map member_text kvs) @ CHR ''}'' # rest = c # cs"
      "\<not> is_ws c" "c \<noteq> CHR ''}''"
      by blast
    with pm n show ?thesis
      unfolding stringify_JObject by (simp add: not_ws_simps)
  qed
qed

lemma JSON_parse_stringify: "wf_json j \<Longrightarrow> JSON_parse (stringify j) = Some j"
  using parse_value_stringify [of j "length (stringify j)" "[]"]
  by (simp add: JSON_parse_def)

section \<open>The manifest in the rewritten chunk\<close>

lemma obj_set_keys: "fst ` set (obj_set t k v) = insert k (fst ` set t)"
  by (induction t k v rule: obj_set.induct) auto

lemma obj_set_distinct: "distinct (map fst t) \<Longrightarrow> distinct (map fst (obj_set t k v))"
proof (induction t k v rule: obj_set.induct)
  case (1 k v)
  then show ?case by simp
next
  case (2 k' v' kvs k v)
  then show ?case
    using obj_set_keys [of kvs k v] by (auto simp: image_iff)
qed

lemma fold_obj_set_distinct:
  "distinct (map fst t) \<Longrightarrow> distinct (map fst (fold (\<lambda>(k, v) t. obj_set t k v) es t))"
  by (induction es arbitrary: t) (auto simp: obj_set_distinct)

lemma wf_table_json: "wf_json (table_json t) \<longleftrightarrow> distinct (map fst t)"
proof -
  have keys: "fst \<circ> (\<lambda>(k :: string, v). (k, JString v)) = fst"
    by (simp add: fun_eq_iff)
  have "\<forall>kv \<in> set (map (\<lambda>(k, v). (k, JString v)) t). wf_json (snd kv)"
    by auto
  then show ?thesis
    unfolding table_json_def wf_json.simps by (simp add: keys)
qed

lemma wf_route_json: "wf_json (route_json r) \<longleftrightarrow> wf_json (routeData r)"
  by (auto simp: route_json_def)

lemma buildManifest_entryModules_distinct:
  assumes "buildManifest b opts internals st = (m, st')"
  shows "distinct (map fst (cells st' (entryModules m)))"
proof -
  from assms have "cells st' (entryModules m) =
      obj_set (fold (\<lambda>(k, v) t. obj_set t k v)
                 (Map_entries st (entrySpecifierToBundleMap internals)) [])
        (BEFORE_HYDRATION_SCRIPT_ID b) no_before_hydration"
    by (simp add: buildManifest_fields buildManifest_store)
  then show ?thesis
    by (simp add: obj_set_distinct fold_obj_set_distinct)
qed

text \<open>
  The value serialized for a manifest of \<^verbatim>\<open>buildManifest\<close> has no repeated key, provided
  the route data and the markdown configuration have none.
\<close>

lemma wf_manifest_json:
  assumes bm: "buildManifest b opts internals st = (m, st')"
    and routes_wf: "\<forall>pd \<in> set (eachPageData internals). wf_json (serializeRouteData b (route pd))"
    and md_wf: "wf_json (config_markdown (astroConfig opts))"
  shows "wf_json (manifest_json st' m)"
proof -
  from bm have r: "routes m = map (route_info b) (eachPageData internals)"
    by (simp add: buildManifest_fields)
  have "\<forall>x \<in> set (map route_json (routes m)). wf_json x"
    using routes_wf unfolding r by (auto simp: wf_route_json route_info_def Let_def)
  then have 1: "wf_json (JArray (map route_json (routes m)))"
    by simp
  from bm md_wf have 2: "wf_json (snd (markdown m))"
    by (auto simp: buildManifest_def Object_fromEntries_def)
  from bm have 3: "pageMap m = JNull" "renderers m = []"
    by (simp_all add: buildManifest_fields)
  from bm have 4: "wf_json (table_json (cells st' (entryModules m)))"
    by (simp add: wf_table_json buildManifest_entryModules_distinct)
  from 1 2 3 4 show ?thesis
    unfolding manifest_json_def by (cases "site m") simp_all
qed

lemma manifest_json_members:
  "json_member (manifest_json st m) ''routes'' = Some (JArray (map route_json (routes m)))"
  "json_member (manifest_json st m) ''site'' = map_option JString (site m)"
  "json_member (manifest_json st m) ''entryModules'' =
     Some (table_json (cells st (entryModules m)))"
  by (cases "site m"; simp add: manifest_json_def json_member_def)+

text \<open>Where the leftmost match of the placeholder is, the code reads quote, token, quote.\<close>

lemma placeholder_at_split:
  assumes "placeholder_at s"
  shows "\<exists>q q'. is_quote q \<and> is_quote q' \<and>
           s = q # manifestReplace @ q' # drop (length manifestReplace + 2) s"
proof -
  from assms obtain q cs where s: "s = q # cs" and q: "is_quote q"
    and t: "take (length manifestReplace) cs = manifestReplace"
    and d: "(case drop (length manifestReplace) cs of [] \<Rightarrow> False | q' # _ \<Rightarrow> is_quote q')"
    by (auto simp: placeholder_at_def split: list.splits)
  from d obtain q' rest where dr: "drop (length manifestReplace) cs = q' # rest" and q': "is_quote q'"
    by (auto split: list.splits)
  have "cs = take (length manifestReplace) cs @ drop (length manifestReplace) cs"
    by simp
  with t dr have cs: "cs = manifestReplace @ q' # rest"
    by simp
  have "drop (length manifestReplace + 2) s = rest"
    unfolding s cs by simp
  with s cs q q' show ?thesis
    by auto
qed

lemma find_placeholder_Some:
  "find_placeholder code = Some i \<Longrightarrow>
   i < length code \<and> placeholder_at (drop i code) \<and> (\<forall>j < i. \<not> placeholder_at (drop j code))"
proof (induction code arbitrary: i)
  case Nil
  then show ?case by simp
next
  case (Cons c cs)
  show ?case
  proof (cases "placeholder_at (c # cs)")
    case True
    with Cons.prems show ?thesis by simp
  next
    case False
    with Cons.prems obtain i' where i: "i = Suc i'" and f: "find_placeholder cs = Some i'"
      by auto
    from Cons.IH [OF f] have ih: "i' < length cs" "placeholder_at (drop i' cs)"
      "\<forall>j < i'. \<not> placeholder_at (drop j cs)"
      by simp_all
    have "\<not> placeholder_at (drop j (c # cs))" if "j < i" for j
    proof (cases j)
      case 0
      with False show ?thesis by simp
    next
      case (Suc j')
      with that i ih(3) show ?thesis by simp
    qed
    with ih i show ?thesis by simp
  qed
qed

lemma rewrite_chunk_in_bundle:
  assumes "buildManifest b opts internals st = (m, st')"
    and "(name, OutputChunk mods code) \<in> set bundle"
    and "resolvedVirtualModuleId \<in> set mods"
  shows "(name, OutputChunk mods (replace_placeholder code (stringify (manifest_json st' m))))
           \<in> set (fst (generateBundle b opts internals bundle st))"
proof -
  let ?text = "stringify (manifest_json st' m)"
  from assms(1) have "fst (generateBundle b opts internals bundle st) =
      map (\<lambda>(chunkName, chunk). (chunkName, rewrite_chunk ?text chunk)) bundle"
    by (simp add: generateBundle_def)
  moreover from assms(3) have "rewrite_chunk ?text (OutputChunk mods code) =
      OutputChunk mods (replace_placeholder code ?text)"
    by (simp add: rewrite_chunk_def)
  ultimately show ?thesis
    using assms(2) by (force simp: image_iff)
qed

text \<open>
  C9. Let the bundle hold a chunk that contains the virtual module and whose code has the
  quoted placeholder, leftmost at index \<open>i\<close>. After \<^verbatim>\<open>generateBundle\<close> the code of that
  chunk is the code before the match, a text, and the code after the match; the text is
  the serialization of the manifest of \<^verbatim>\<open>buildManifest\<close>, and \<^verbatim>\<open>JSON.parse\<close> of it returns
  an object whose \<open>routes\<close>, \<open>site\<close> and \<open>entryModules\<close> are the manifest's routes, site
  (absent when the site is \<^verbatim>\<open>undefined\<close>) and entry modules. The route data and the
  markdown configuration are taken to be JavaScript values (no key twice in an object).
\<close>

theorem generateBundle_manifest_roundtrip:
  assumes "buildManifest b opts internals st = (m, st')"
    and "\<forall>pd \<in> set (eachPageData internals). wf_json (serializeRouteData b (route pd))"
    and "wf_json (config_markdown (astroConfig opts))"
    and "(name, OutputChunk mods code) \<in> set bundle"
    and "resolvedVirtualModuleId \<in> set mods"
    and "find_placeholder code = Some i"
  shows "\<exists>text parsed q q'.
           is_quote q \<and> is_quote q' \<and>
           code = take i code @ (q # manifestReplace @ [q']) @ drop (i + 28) code \<and>
           (name, OutputChunk mods (take i code @ text @ drop (i + 28) code))
             \<in> set (fst (generateBundle b opts internals bundle st)) \<and>
           text = stringify (manifest_json st' m) \<and>
           JSON_parse text = Some parsed \<and>
           json_member parsed ''routes'' = Some (JArray (map route_json (routes m))) \<and>
           json_member parsed ''site'' = map_option JString (site m) \<and>
           json_member parsed ''entryModules'' = Some (table_json (cells st' (entryModules m)))"
proof -
  let ?J = "manifest_json st' m"
  have len: "length manifestReplace = 26"
    by (simp add: manifestReplace_def)
  from assms(6) have "placeholder_at (drop i code)"
    by (simp add: find_placeholder_Some)
  from placeholder_at_split [OF this] obtain q q' where q: "is_quote q" "is_quote q'"
    and d: "drop i code = q # manifestReplace @ q' # drop (i + 28) code"
    by (auto simp: len add.commute)
  have "code = take i code @ drop i code"
    by simp
  with d have split: "code = take i code @ (q # manifestReplace @ [q']) @ drop (i + 28) code"
    by simp
  from assms(6) have "replace_placeholder code (stringify ?J) =
      take i code @ stringify ?J @ drop (i + 28) code"
    by (simp add: replace_placeholder_def len add.commute)
  with rewrite_chunk_in_bundle [OF assms(1,4,5)]
  have chunk: "(name, OutputChunk mods (take i code @ stringify ?J @ drop (i + 28) code))
      \<in> set (fst (generateBundle b opts internals bundle st))"
    by simp
  have "wf_json ?J"
    using assms(1-3) by (rule wf_manifest_json)
  then have parse: "JSON_parse (stringify ?J) = Some ?J"
    by (rule JSON_parse_stringify)
  from q split chunk parse manifest_json_members [of st' m] show ?thesis
    by blast
qed

text \<open>
  The serialized fields determine the manifest's: two route entries with the same JSON are
  the same entry, and two tables with the same JSON are the same table.
\<close>

lemma route_json_inj: "route_json r = route_json r' \<Longrightarrow> r = r'"
proof -
  have inj: "inj JString"
    by (rule injI) simp
  show "route_json r = route_json r' \<Longrightarrow> r = r'"
    by (cases r, cases r') (simp add: route_json_def inj_map_eq_map [OF inj])
qed

lemma table_json_inj: "table_json t = table_json t' \<Longrightarrow> t = t'"
proof -
  have "inj (\<lambda>(k :: string, v :: string). (k, JString v))"
    by (auto intro!: injI)
  then show "table_json t = table_json t' \<Longrightarrow> t = t'"
    by (simp add: table_json_def)
qed

theorem generateBundle_manifest_roundtrip_witness:
  "find_placeholder example_code = Some 6 \<and>
   (\<exists>text parsed.
      (''entry.mjs'',
       OutputChunk [''src/pages/index.astro'', resolvedVirtualModuleId] (''m = f('' @ text @ '');''))
        \<in> set (fst (generateBundle example_build_env example_opts example_internals
                      example_bundle example_store)) \<and>
      JSON_parse text = Some parsed \<and>
      json_member parsed ''routes'' =
        Some (JArray
          [JObject [(''file'', JString []), (''links'', JArray [JString ''a.css'']),
                    (''scripts'', JArray [JString ''H'', JString ''A'', JString ''B'']),
                    (''routeData'', JObject [(''pattern'', JString ''/'')])],
           JObject [(''file'', JString []), (''links'', JArray []),
                    (''scripts'', JArray [JString ''C'']),
                    (''routeData'', JObject [(''pattern'', JString ''/about'')])]]) \<and>
      json_member parsed ''site'' = Some (JString ''https://example.com'') \<and>
      json_member parsed ''entryModules'' =
        Some (JObject
          [(''astro:scripts/before-hydration.js'',
            JString ''data:text/javascript;charset=utf-8,//[no before-hydration script]''),
           (''@components/X'', JString ''chunks/X.js'')]))"
proof -
  let ?m = "\<lparr>routes =
      [\<lparr>route_file = [], links = [''a.css''], scripts = [''H'', ''A'', ''B''],
        routeData = JObject [(''pattern'', JString ''/'')]\<rparr>,
       \<lparr>route_file = [], links = [], scripts = [''C''],
        routeData = JObject [(''pattern'', JString ''/about'')]\<rparr>],
      site = Some ''https://example.com'', markdown = (7, JObject []),
      pageMap = JNull, renderers = [], entryModules = 1\<rparr>"
  let ?st = "\<lparr>cells = (cells example_store)
      (1 := [(''astro:scripts/before-hydration.js'', no_before_hydration),
             (''@components/X'', ''chunks/X.js'')]),
      next_addr = 2\<rparr>"
  have bm: "buildManifest example_build_env example_opts example_internals example_store = (?m, ?st)"
    by (simp add: buildManifest_def Object_fromEntries_def assign_prop_def Map_entries_def
        eachPageData_def route_info_def example_build_env_def example_opts_def
        example_internals_def example_store_def)
  have wf1: "\<forall>pd \<in> set (eachPageData example_internals).
      wf_json (serializeRouteData example_build_env (route pd))"
    by (simp add: eachPageData_def example_internals_def example_build_env_def)
  have wf2: "wf_json (config_markdown (astroConfig example_opts))"
    by (simp add: example_opts_def)
  have chunk: "(''entry.mjs'',
      OutputChunk [''src/pages/index.astro'', resolvedVirtualModuleId] example_code)
      \<in> set example_bundle"
    by (simp add: example_bundle_def)
  have vm: "resolvedVirtualModuleId \<in> set [''src/pages/index.astro'', resolvedVirtualModuleId]"
    by simp
  have fp: "find_placeholder example_code = Some 6"
    by (simp add: example_code_def manifestReplace_def placeholder_at_def is_quote_def)
  have pre: "take 6 example_code = ''m = f(''" and post: "drop (6 + 28) example_code = '');''"
    by (simp_all add: example_code_def manifestReplace_def)
  from generateBundle_manifest_roundtrip [OF bm wf1 wf2 chunk vm fp] fp
  show ?thesis
    unfolding pre post
    by (auto simp: route_json_def table_json_def no_before_hydration_def)
qed

end
